theory Spec2Isabelle
  imports Main "HOL-Library.Sublist"
begin

section \<open>Data model of \<open>main.go\<close>\<close>

text \<open>
  The two JSON payload types. A decoded array is modelled as a list of records: the
  entries of the feed and of the crash report are JSON objects.
\<close>

record releaseJson =
  Name :: string
  TagName :: string
  PublishedAt :: string
  Prerelease :: bool
  Body :: string

record errorCountJson =
  Id' :: int
  ServerName :: string
  ServerShortName :: string
  ServerVersion :: string

text \<open>
  Every \<open>return fmt.Errorf(...)\<close> of \<open>run\<close> is one constructor, named after the error
  taxonomy where it has a name there; the Go message prefix is given beside it. The last
  constructor is the panic of reading \<open>.TagName\<close> through a nil pointer.
\<close>

datatype error =
    FeedUnavailable       \<comment> \<open>\<open>githubReleases: ...\<close>\<close>
  | MalformedTimestamp    \<comment> \<open>\<open>parse published at: ...\<close>\<close>
  | OracleUnavailable     \<comment> \<open>\<open>errorCount: ...\<close>\<close>
  | NoReleasesFound       \<comment> \<open>\<open>no releases found\<close>\<close>
  | MkdirFailed           \<comment> \<open>\<open>mkdir: ...\<close>\<close>
  | WriteLatestFailed     \<comment> \<open>\<open>write latest.txt: ...\<close>\<close>
  | WriteStableFailed     \<comment> \<open>\<open>write stable.txt: ...\<close>\<close>
  | NilDereference        \<comment> \<open>runtime panic: nil pointer dereference\<close>

subsection \<open>Time\<close>

text \<open>
  A \<open>time.Time\<close> is an instant, counted in nanoseconds from the zero Time
  (January 1, year 1, 00:00:00 UTC); a \<open>time.Duration\<close> is a signed 64-bit count of
  nanoseconds, and \<open>Time.Sub\<close> saturates at its bounds.
\<close>

type_synonym Time = int
type_synonym Duration = int

definition Hour :: Duration where
  "Hour = 3600 * 1000000000"

definition minDuration :: Duration where
  "minDuration = - (2 ^ 63)"

definition maxDuration :: Duration where
  "maxDuration = 2 ^ 63 - 1"

definition IsZero :: "Time \<Rightarrow> bool" where
  "IsZero t = (t = 0)"

definition Add :: "Time \<Rightarrow> Duration \<Rightarrow> Time" where
  "Add t d = t + d"

definition Before :: "Time \<Rightarrow> Time \<Rightarrow> bool" where
  "Before t u = (t < u)"

definition Sub :: "Time \<Rightarrow> Time \<Rightarrow> Duration" where
  "Sub t u =
     (let d = t - u
      in if d < minDuration then minDuration
         else if maxDuration < d then maxDuration
         else d)"

subsection \<open>Strings\<close>

text \<open>
  \<open>strings.Contains\<close> and \<open>strings.ReplaceAll\<close> work on the bytes of a string.
  \<open>ReplaceAll\<close> is modelled for a pattern of one byte, which is how \<open>run\<close> calls it.
\<close>

fun HasPrefix :: "string \<Rightarrow> string \<Rightarrow> bool" where
  "HasPrefix s [] = True"
| "HasPrefix [] (p # ps) = False"
| "HasPrefix (c # s) (p # ps) = (c = p \<and> HasPrefix s ps)"

fun Contains :: "string \<Rightarrow> string \<Rightarrow> bool" where
  "Contains [] substr = (substr = [])"
| "Contains (c # s) substr = (HasPrefix (c # s) substr \<or> Contains s substr)"

fun ReplaceAll :: "string \<Rightarrow> char \<Rightarrow> string \<Rightarrow> string" where
  "ReplaceAll [] old new = []"
| "ReplaceAll (c # s) old new =
     (if c = old then new @ ReplaceAll s old new else c # ReplaceAll s old new)"

subsection \<open>The world outside the process\<close>

text \<open>
  What \<open>run\<close> reads from outside: the two HTTP endpoints (\<open>None\<close> when the request or
  the decoding of its body fails), the library parser \<open>time.Parse(time.RFC3339, _)\<close>
  (\<open>None\<close> when it returns an error), the clock, and whether the directory and the two
  files can be written. The clock is read once: the thresholds are counted in days and
  the run lasts seconds.
\<close>

record world =
  github_feed :: "releaseJson list option"
  crash_reports :: "string \<Rightarrow> errorCountJson list option"
  parse_time :: "string \<Rightarrow> Time option"
  now :: Time
  mkdir_ok :: bool
  write_ok :: "string \<Rightarrow> bool"

definition Since :: "world \<Rightarrow> Time \<Rightarrow> Duration" where
  "Since w t = Sub (now w) t"

section \<open>\<open>errorCount\<close>\<close>

text \<open>
  The loop of \<open>errorCount\<close> over the decoded rows, with its two variables: the map
  \<open>servers\<close> of names already seen and the counter \<open>count\<close>.
\<close>

fun count_loop :: "(string \<rightharpoonup> string) \<Rightarrow> int \<Rightarrow> errorCountJson list \<Rightarrow> int" where
  "count_loop servers count [] = count"
| "count_loop servers count (payload # payloads) =
     (case servers (ServerName payload) of
        Some _ \<Rightarrow> count_loop servers count payloads
      | None \<Rightarrow>
          count_loop (servers(ServerName payload \<mapsto> ServerName payload)) (count + 1) payloads)"

definition errorCount :: "world \<Rightarrow> string \<Rightarrow> error + int" where
  "errorCount w tag =
     (case crash_reports w tag of
        None \<Rightarrow> Inl OracleUnavailable
      | Some payloads \<Rightarrow> Inr (count_loop Map.empty 0 payloads))"

section \<open>\<open>run\<close>\<close>

text \<open>
  The four local variables of \<open>run\<close>. The pointers are options (\<open>nil\<close> is \<open>None\<close>);
  \<open>lastReleasePublishDate\<close> starts as the zero Time. The field \<open>oracle_queries\<close> is not
  a variable of the source: it records, in call order, the argument of every call of
  \<open>errorCount\<close>, so that the requests the loop sends can be stated.
\<close>

record SelectionState =
  latestUnstableRelease :: "releaseJson option"
  latestStableRelease :: "releaseJson option"
  fallbackRelease :: "releaseJson option"
  lastReleasePublishDate :: Time
  oracle_queries :: "string list"

definition init_state :: SelectionState where
  "init_state =
     \<lparr>latestUnstableRelease = None, latestStableRelease = None, fallbackRelease = None,
      lastReleasePublishDate = 0, oracle_queries = []\<rparr>"

text \<open>How one pass through the loop body ends: \<open>continue\<close> (or the end of the body,
  which the source never reaches), \<open>break\<close>, or \<open>return err\<close>.\<close>

datatype flow = Next | Break | Return error

definition iteration :: "world \<Rightarrow> releaseJson \<Rightarrow> SelectionState \<Rightarrow> flow \<times> SelectionState" where
  "iteration w release s =
     (if Prerelease release then (Next, s)
      else
        let s1 = (if latestUnstableRelease s = None
                  then s\<lparr>latestUnstableRelease := Some release\<rparr> else s)
        in case parse_time w (PublishedAt release) of
             None \<Rightarrow> (Return MalformedTimestamp, s1)
           | Some publishedAt \<Rightarrow>
               if \<not> IsZero (lastReleasePublishDate s1) \<and>
                  Before (Add (lastReleasePublishDate s1) (- 3 * 24 * Hour)) publishedAt
               then (Next, s1\<lparr>lastReleasePublishDate := publishedAt\<rparr>)
               else
                 let s2 = (if fallbackRelease s1 = None \<and> Since w publishedAt > 30 * 24 * Hour
                           then s1\<lparr>fallbackRelease := Some release\<rparr> else s1);
                     s3 = s2\<lparr>lastReleasePublishDate := publishedAt\<rparr>
                 in if Since w publishedAt < 7 * 24 * Hour then (Next, s3)
                    else if \<not> Contains (Body release) ''Fix'' then (Next, s3)
                    else
                      let releaseTag = ReplaceAll (TagName release) (CHR ''v'') '''';
                          s4 = s3\<lparr>oracle_queries := oracle_queries s3 @ [releaseTag]\<rparr>
                      in (case errorCount w releaseTag of
                            Inl err \<Rightarrow> (Return err, s4)
                          | Inr n \<Rightarrow>
                              if n > 0 then (Next, s4)
                              else (Break, s4\<lparr>latestStableRelease := Some release\<rparr>)))"

text \<open>The \<open>for ... range releases\<close> loop. The result \<open>Next\<close> means that the loop ran
  to the end of the slice.\<close>

fun scan :: "world \<Rightarrow> releaseJson list \<Rightarrow> SelectionState \<Rightarrow> flow \<times> SelectionState" where
  "scan w [] s = (Next, s)"
| "scan w (release # releases) s =
     (case iteration w release s of
        (Next, s') \<Rightarrow> scan w releases s'
      | (Break, s') \<Rightarrow> (Break, s')
      | (Return err, s') \<Rightarrow> (Return err, s'))"

text \<open>Lines 44 to 111: the loop, then the fallback in place of a missing stable release.\<close>

definition candidates :: "world \<Rightarrow> releaseJson list \<Rightarrow> error + SelectionState" where
  "candidates w releases =
     (case scan w releases init_state of
        (Return err, s) \<Rightarrow> Inl err
      | (_, s) \<Rightarrow>
          (case latestStableRelease s of
             Some _ \<Rightarrow> Inr s
           | None \<Rightarrow>
               (case fallbackRelease s of
                  None \<Rightarrow> Inl NoReleasesFound
                | Some f \<Rightarrow> Inr (s\<lparr>latestStableRelease := Some f\<rparr>))))"

text \<open>The two tags that lines 117 to 124 read through the two pointers.\<close>

record SelectionResult =
  unstableTag :: string
  stableTag :: string

definition tags :: "SelectionState \<Rightarrow> error + SelectionResult" where
  "tags s =
     (case latestUnstableRelease s of
        None \<Rightarrow> Inl NilDereference
      | Some latestUnstable \<Rightarrow>
          (case latestStableRelease s of
             None \<Rightarrow> Inl NilDereference
           | Some latestStable \<Rightarrow>
               Inr \<lparr>unstableTag = TagName latestUnstable, stableTag = TagName latestStable\<rparr>))"

text \<open>The selector proper: \<open>run\<close> between the fetch of the feed and the writing of
  the files.\<close>

definition select :: "world \<Rightarrow> releaseJson list \<Rightarrow> error + SelectionResult" where
  "select w releases =
     (case candidates w releases of
        Inl err \<Rightarrow> Inl err
      | Inr s \<Rightarrow> tags s)"

text \<open>
  The whole of \<open>run\<close>. Its result is the error it returns (\<open>None\<close> for \<open>nil\<close>) and the
  files it has written, as pairs of path and content in the order of writing. Console
  output is not modelled.
\<close>

definition run :: "world \<Rightarrow> error option \<times> (string \<times> string) list" where
  "run w =
     (case github_feed w of
        None \<Rightarrow> (Some FeedUnavailable, [])
      | Some releases \<Rightarrow>
          (case candidates w releases of
             Inl err \<Rightarrow> (Some err, [])
           | Inr s \<Rightarrow>
               if \<not> mkdir_ok w then (Some MkdirFailed, [])
               else
                 (case tags s of
                    Inl err \<Rightarrow> (Some err, [])
                  | Inr r \<Rightarrow>
                      if \<not> write_ok w ''bin/latest.txt'' then (Some WriteLatestFailed, [])
                      else if \<not> write_ok w ''bin/stable.txt''
                      then (Some WriteStableFailed, [(''bin/latest.txt'', unstableTag r)])
                      else (None, [(''bin/latest.txt'', unstableTag r),
                                   (''bin/stable.txt'', stableTag r)]))))"

section \<open>Definitions used to state the properties\<close>

subsection \<open>The loop with a single update of \<open>lastReleasePublishDate\<close>\<close>

text \<open>
  The loop body as the design note on the double update proposes it: the two
  assignments to \<open>lastReleasePublishDate\<close> (in the spacing branch and after the fallback
  capture) are replaced by one, made once for every non-prerelease release whose timestamp
  has been parsed. The spacing test is evaluated first, against the date of the release
  considered before; everything else is the body of \<open>iteration\<close>.
\<close>

definition iteration_single_update ::
  "world \<Rightarrow> releaseJson \<Rightarrow> SelectionState \<Rightarrow> flow \<times> SelectionState" where
  "iteration_single_update w release s =
     (if Prerelease release then (Next, s)
      else
        let s1 = (if latestUnstableRelease s = None
                  then s\<lparr>latestUnstableRelease := Some release\<rparr> else s)
        in case parse_time w (PublishedAt release) of
             None \<Rightarrow> (Return MalformedTimestamp, s1)
           | Some publishedAt \<Rightarrow>
               let tooClose = (\<not> IsZero (lastReleasePublishDate s1) \<and>
                     Before (Add (lastReleasePublishDate s1) (- 3 * 24 * Hour)) publishedAt);
                   s2 = s1\<lparr>lastReleasePublishDate := publishedAt\<rparr>
               in if tooClose then (Next, s2)
                  else
                    let s3 = (if fallbackRelease s2 = None \<and> Since w publishedAt > 30 * 24 * Hour
                              then s2\<lparr>fallbackRelease := Some release\<rparr> else s2)
                    in if Since w publishedAt < 7 * 24 * Hour then (Next, s3)
                       else if \<not> Contains (Body release) ''Fix'' then (Next, s3)
                       else
                         let releaseTag = ReplaceAll (TagName release) (CHR ''v'') '''';
                             s4 = s3\<lparr>oracle_queries := oracle_queries s3 @ [releaseTag]\<rparr>
                         in (case errorCount w releaseTag of
                               Inl err \<Rightarrow> (Return err, s4)
                             | Inr n \<Rightarrow>
                                 if n > 0 then (Next, s4)
                                 else (Break, s4\<lparr>latestStableRelease := Some release\<rparr>)))"

fun scan_single_update ::
  "world \<Rightarrow> releaseJson list \<Rightarrow> SelectionState \<Rightarrow> flow \<times> SelectionState" where
  "scan_single_update w [] s = (Next, s)"
| "scan_single_update w (release # releases) s =
     (case iteration_single_update w release s of
        (Next, s') \<Rightarrow> scan_single_update w releases s'
      | (Break, s') \<Rightarrow> (Break, s')
      | (Return err, s') \<Rightarrow> (Return err, s'))"

definition select_single_update :: "world \<Rightarrow> releaseJson list \<Rightarrow> error + SelectionResult" where
  "select_single_update w releases =
     (case scan_single_update w releases init_state of
        (Return err, s) \<Rightarrow> Inl err
      | (_, s) \<Rightarrow>
          (case latestStableRelease s of
             Some _ \<Rightarrow> tags s
           | None \<Rightarrow>
               (case fallbackRelease s of
                  None \<Rightarrow> Inl NoReleasesFound
                | Some f \<Rightarrow> tags (s\<lparr>latestStableRelease := Some f\<rparr>))))"

subsection \<open>The filters, as predicates on a release\<close>

text \<open>The version string that \<open>run\<close> sends to the crash report service for a release
  (line 90).\<close>

definition normalizedTag :: "releaseJson \<Rightarrow> string" where
  "normalizedTag release = ReplaceAll (TagName release) (CHR ''v'') ''''"

text \<open>The age test of the fallback capture (line 71).\<close>

definition older_than_30_days :: "world \<Rightarrow> releaseJson \<Rightarrow> bool" where
  "older_than_30_days w release =
     (case parse_time w (PublishedAt release) of
        None \<Rightarrow> False
      | Some publishedAt \<Rightarrow> Since w publishedAt > 30 * 24 * Hour)"

text \<open>A release passes filter 1 (not a prerelease), filter 6 (not younger than 7 days),
  filter 7 (the body contains \<open>Fix\<close>) and filter 8 (the crash report count is not
  positive).\<close>

definition passes_1_6_7_8 :: "world \<Rightarrow> releaseJson \<Rightarrow> bool" where
  "passes_1_6_7_8 w release =
     (\<not> Prerelease release \<and>
      (case parse_time w (PublishedAt release) of
         None \<Rightarrow> False
       | Some publishedAt \<Rightarrow>
           \<not> Since w publishedAt < 7 * 24 * Hour \<and>
           Contains (Body release) ''Fix'' \<and>
           (case errorCount w (normalizedTag release) of
              Inl err \<Rightarrow> False
            | Inr n \<Rightarrow> \<not> n > 0)))"

text \<open>The spacing filter (lines 63 and 64) skips the release in state \<open>s\<close>.\<close>

definition spacing_skips :: "world \<Rightarrow> releaseJson \<Rightarrow> SelectionState \<Rightarrow> bool" where
  "spacing_skips w release s =
     (case parse_time w (PublishedAt release) of
        None \<Rightarrow> False
      | Some publishedAt \<Rightarrow>
          \<not> IsZero (lastReleasePublishDate s) \<and>
          Before (Add (lastReleasePublishDate s) (- 3 * 24 * Hour)) publishedAt)"


text \<open>
  The releases of a feed that reach the fallback capture, when the release considered
  before them was published at \<open>lastDate\<close> (the zero Time when there was none): the
  non-prereleases that the spacing filter does not skip. Every non-prerelease release
  becomes the release considered before the next one, skipped or not; the list ends at
  a timestamp that does not parse.
\<close>

fun past_spacing :: "world \<Rightarrow> Time \<Rightarrow> releaseJson list \<Rightarrow> releaseJson list" where
  "past_spacing w lastDate [] = []"
| "past_spacing w lastDate (release # releases) =
     (if Prerelease release then past_spacing w lastDate releases
      else
        (case parse_time w (PublishedAt release) of
           None \<Rightarrow> []
         | Some publishedAt \<Rightarrow>
             if \<not> IsZero lastDate \<and> Before (Add lastDate (- 3 * 24 * Hour)) publishedAt
             then past_spacing w publishedAt releases
             else release # past_spacing w publishedAt releases))"

subsection \<open>A sample world\<close>

text \<open>
  The values of \<open>time.Parse(time.RFC3339, _)\<close> on the timestamps of the sample releases
  (midnight UTC of the day, in nanoseconds from the zero Time); the empty string, which
  is what a JSON \<open>null\<close> decodes to, and a timestamp without the \<open>T\<close> and the zone do
  not parse. The clock stands at
  2023-11-01T00:00:00Z.
\<close>

definition sample_parse :: "string \<Rightarrow> Time option" where
  "sample_parse str =
     (if str = ''2023-10-27T00:00:00Z'' then Some 63833961600000000000
      else if str = ''2023-10-03T00:00:00Z'' then Some 63831888000000000000
      else if str = ''2023-10-01T00:00:00Z'' then Some 63831715200000000000
      else if str = ''2023-09-22T00:00:00Z'' then Some 63830937600000000000
      else if str = ''2023-09-21T00:00:00Z'' then Some 63830851200000000000
      else None)"

definition sample_rows :: "errorCountJson list" where
  "sample_rows =
     [\<lparr>Id' = 1, ServerName = ''Alpha'', ServerShortName = ''al'', ServerVersion = ''22.29.0''\<rparr>,
      \<lparr>Id' = 2, ServerName = ''Beta'', ServerShortName = ''be'', ServerVersion = ''22.29.0''\<rparr>,
      \<lparr>Id' = 3, ServerName = ''Alpha'', ServerShortName = ''al'', ServerVersion = ''22.29.0''\<rparr>]"

definition sample_reports :: "string \<Rightarrow> errorCountJson list option" where
  "sample_reports version = (if version = ''22.29.0'' then Some sample_rows else Some [])"

definition sample_world :: "releaseJson list \<Rightarrow> world" where
  "sample_world releases =
     \<lparr>github_feed = Some releases, crash_reports = sample_reports, parse_time = sample_parse,
      now = 63834393600000000000, mkdir_ok = True, write_ok = (\<lambda>path. True)\<rparr>"

text \<open>The sample world with a crash report service that answers for version
  \<open>22.29.0\<close> only: every other request fails.\<close>

definition outage_world :: world where
  "outage_world =
     (sample_world [])\<lparr>crash_reports :=
        (\<lambda>version. if version = ''22.29.0'' then Some sample_rows else None)\<rparr>"

definition rel_draft :: releaseJson where
  "rel_draft =
     \<lparr>Name = ''next'', TagName = ''v22.34.0-rc1'', PublishedAt = '''', Prerelease = True,
      Body = ''''\<rparr>"

definition rel_5d :: releaseJson where
  "rel_5d =
     \<lparr>Name = ''22.33.0'', TagName = ''v22.33.0'', PublishedAt = ''2023-10-27T00:00:00Z'',
      Prerelease = False, Body = ''Fix zone crash''\<rparr>"

definition rel_29d :: releaseJson where
  "rel_29d =
     \<lparr>Name = ''22.32.0'', TagName = ''v22.32.0'', PublishedAt = ''2023-10-03T00:00:00Z'',
      Prerelease = False, Body = ''New rule''\<rparr>"

definition rel_31d :: releaseJson where
  "rel_31d =
     \<lparr>Name = ''22.31.0'', TagName = ''v22.31.0'', PublishedAt = ''2023-10-01T00:00:00Z'',
      Prerelease = False, Body = ''New quest API''\<rparr>"

definition rel_40d :: releaseJson where
  "rel_40d =
     \<lparr>Name = ''22.30.0'', TagName = ''v22.30.0'', PublishedAt = ''2023-09-22T00:00:00Z'',
      Prerelease = False, Body = ''Fix crash''\<rparr>"

definition rel_malformed :: releaseJson where
  "rel_malformed =
     \<lparr>Name = ''22.30.1'', TagName = ''v22.30.1'', PublishedAt = ''2023-09-22 10:00:00'',
      Prerelease = False, Body = ''Fix login''\<rparr>"

definition rel_41d :: releaseJson where
  "rel_41d =
     \<lparr>Name = ''22.29.0'', TagName = ''v22.29.0'', PublishedAt = ''2023-09-21T00:00:00Z'',
      Prerelease = False, Body = ''Fix loot tables''\<rparr>"

section \<open>\<open>errorCount\<close> counts distinct server names\<close>

lemma count_loop_card:
  "count_loop servers count payloads =
     count + int (card (ServerName ` set payloads - dom servers))"
proof (induction payloads arbitrary: servers count)
  case Nil
  then show ?case by simp
next
  case (Cons payload payloads)
  let ?S = "ServerName ` set payloads"
  show ?case
  proof (cases "servers (ServerName payload)")
    case None
    then have notin: "ServerName payload \<notin> dom servers"
      by (simp add: domIff)
    have "count_loop (servers(ServerName payload \<mapsto> ServerName payload)) (count + 1) payloads =
        count + 1 + int (card (?S - dom (servers(ServerName payload \<mapsto> ServerName payload))))"
      by (rule Cons.IH)
    then have step: "count_loop servers count (payload # payloads) =
        count + 1 + int (card (?S - insert (ServerName payload) (dom servers)))"
      using None by simp
    have "insert (ServerName payload) ?S - dom servers =
        insert (ServerName payload) (?S - insert (ServerName payload) (dom servers))"
      using notin by auto
    then have "card (insert (ServerName payload) ?S - dom servers) =
        Suc (card (?S - insert (ServerName payload) (dom servers)))"
      by simp
    with step show ?thesis
      by simp
  next
    case (Some v)
    then have "ServerName payload \<in> dom servers"
      by (simp add: domIff)
    then have "insert (ServerName payload) ?S - dom servers = ?S - dom servers"
      by auto
    moreover have "count_loop servers count payloads = count + int (card (?S - dom servers))"
      by (rule Cons.IH)
    ultimately show ?thesis
      using Some by simp
  qed
qed

section \<open>Evaluation of the model on concrete inputs\<close>

lemmas model_defs =
  select_def candidates_def tags_def run_def iteration_def errorCount_def Since_def Sub_def
  Add_def Before_def IsZero_def Hour_def minDuration_def maxDuration_def init_state_def Let_def

lemmas sample_defs =
  sample_world_def sample_parse_def sample_reports_def sample_rows_def
  rel_draft_def rel_5d_def rel_29d_def rel_31d_def rel_40d_def rel_41d_def rel_malformed_def

section \<open>One pass through the loop body\<close>

lemma iteration_Prerelease: "Prerelease r \<Longrightarrow> iteration w r s = (Next, s)"
  by (simp add: iteration_def)

lemma iteration_latestUnstable:
  "\<not> Prerelease r \<Longrightarrow>
   latestUnstableRelease (snd (iteration w r s)) =
     (case latestUnstableRelease s of None \<Rightarrow> Some r | Some u \<Rightarrow> Some u)"
  by (simp add: iteration_def Let_def split: option.splits sum.splits)

lemma iteration_latestStable:
  "latestStableRelease (snd (iteration w r s)) =
     (if fst (iteration w r s) = Break then Some r else latestStableRelease s)"
  by (simp add: iteration_def Let_def split: option.splits sum.splits)

lemma iteration_malformed:
  "\<not> Prerelease r \<Longrightarrow> parse_time w (PublishedAt r) = None \<Longrightarrow>
   fst (iteration w r s) = Return MalformedTimestamp"
  by (simp add: iteration_def Let_def)

lemma iteration_errors:
  "fst (iteration w r s) = Return e \<Longrightarrow> e = MalformedTimestamp \<or> e = OracleUnavailable"
  by (auto simp: iteration_def Let_def errorCount_def split: option.splits sum.splits if_splits)

section \<open>The loop\<close>

lemma scan_step:
  "iteration w r s = (f, s') \<Longrightarrow>
   scan w (r # rs) s = (if f = Next then scan w rs s' else (f, s'))"
  by (cases f) simp_all

lemma scan_only_prereleases:
  "find (\<lambda>r. \<not> Prerelease r) releases = None \<Longrightarrow> scan w releases s = (Next, s)"
  by (induction releases) (simp_all add: iteration_Prerelease split: if_splits)

lemma scan_latestUnstable:
  "latestUnstableRelease (snd (scan w releases s)) =
     (case latestUnstableRelease s of
        Some u \<Rightarrow> Some u
      | None \<Rightarrow> find (\<lambda>r. \<not> Prerelease r) releases)"
proof (induction releases arbitrary: s)
  case Nil
  then show ?case by (simp split: option.splits)
next
  case (Cons r rs)
  show ?case
  proof (cases "Prerelease r")
    case True
    then show ?thesis
      by (simp add: iteration_Prerelease Cons.IH split: option.splits)
  next
    case False
    obtain f s' where it: "iteration w r s = (f, s')"
      by (cases "iteration w r s")
    have u: "latestUnstableRelease s' =
        (case latestUnstableRelease s of None \<Rightarrow> Some r | Some u \<Rightarrow> Some u)"
      using iteration_latestUnstable [OF False, of w s] it by simp
    show ?thesis
    proof (cases "f = Next")
      case True
      then have "scan w (r # rs) s = scan w rs s'"
        using it by simp
      then show ?thesis
        using u False Cons.IH [of s'] by (simp split: option.splits)
    next
      case False
      then have "scan w (r # rs) s = (f, s')"
        using scan_step [OF it] by simp
      then show ?thesis
        using u \<open>\<not> Prerelease r\<close> by (simp split: option.splits)
    qed
  qed
qed

lemma scan_append:
  "scan w (xs @ ys) s =
     (case scan w xs s of
        (Next, s') \<Rightarrow> scan w ys s'
      | (Break, s') \<Rightarrow> (Break, s')
      | (Return err, s') \<Rightarrow> (Return err, s'))"
proof (induction xs arbitrary: s)
  case Nil
  then show ?case by simp
next
  case (Cons x xs)
  obtain f s' where it: "iteration w x s = (f, s')"
    by (cases "iteration w x s")
  show ?case
    using it Cons.IH [of s'] by (cases f) simp_all
qed

lemma scan_stopped_append:
  "fst (scan w xs s) \<noteq> Next \<Longrightarrow> scan w (xs @ ys) s = scan w xs s"
  by (cases "scan w xs s"; cases "fst (scan w xs s)") (simp_all add: scan_append)

lemma scan_latestStable_Break:
  "latestStableRelease s = None \<Longrightarrow>
   (latestStableRelease (snd (scan w releases s)) \<noteq> None) = (fst (scan w releases s) = Break)"
proof (induction releases arbitrary: s)
  case Nil
  then show ?case by simp
next
  case (Cons r rs)
  obtain f s' where it: "iteration w r s = (f, s')"
    by (cases "iteration w r s")
  have st: "latestStableRelease s' = (if f = Break then Some r else latestStableRelease s)"
    using iteration_latestStable [of w r s] it by simp
  show ?case
  proof (cases f)
    case Next
    then show ?thesis
      using it st Cons.prems Cons.IH [of s'] by simp
  next
    case Break
    then show ?thesis
      using it st by simp
  next
    case (Return e)
    then show ?thesis
      using it st Cons.prems by simp
  qed
qed

lemma scan_errors:
  "fst (scan w releases s) = Return e \<Longrightarrow> e = MalformedTimestamp \<or> e = OracleUnavailable"
proof (induction releases arbitrary: s)
  case Nil
  then show ?case by simp
next
  case (Cons r rs)
  obtain f s' where it: "iteration w r s = (f, s')"
    by (cases "iteration w r s")
  show ?case
  proof (cases "f = Next")
    case True
    then show ?thesis
      using it Cons.prems Cons.IH [of s'] by simp
  next
    case False
    then have "f = Return e"
      using scan_step [OF it, of rs] Cons.prems by simp
    then show ?thesis
      using iteration_errors [of w r s e] it by simp
  qed
qed

text \<open>The fallback is only ever captured from a release that is not a prerelease.\<close>

lemma scan_candidate_needs_release:
  assumes "find (\<lambda>r. \<not> Prerelease r) releases = None"
  shows "candidates w releases = Inl NoReleasesFound"
  using scan_only_prereleases [OF assms, of w init_state]
  by (simp add: candidates_def init_state_def)

lemma candidates_unstable_set:
  assumes "candidates w releases = Inr s"
  shows "latestUnstableRelease s \<noteq> None \<and> latestStableRelease s \<noteq> None"
proof -
  have nonempty: "find (\<lambda>r. \<not> Prerelease r) releases \<noteq> None"
    using assms scan_candidate_needs_release [of releases w] by auto
  obtain f s0 where sc: "scan w releases init_state = (f, s0)"
    by (cases "scan w releases init_state")
  have "latestUnstableRelease s0 = find (\<lambda>r. \<not> Prerelease r) releases"
    using scan_latestUnstable [of w releases init_state] sc by (simp add: init_state_def)
  then have u0: "latestUnstableRelease s0 \<noteq> None"
    using nonempty by simp
  show ?thesis
    using assms sc u0
    by (cases f) (auto simp: candidates_def split: option.splits)
qed

lemma select_not_nil: "select w releases \<noteq> Inl NilDereference"
proof (cases "candidates w releases")
  case (Inl e)
  then have "e \<noteq> NilDereference"
    using scan_errors [of w releases init_state NilDereference]
    by (auto simp: candidates_def split: prod.splits flow.splits option.splits)
  then show ?thesis
    using Inl by (simp add: select_def)
next
  case (Inr s)
  then show ?thesis
    using candidates_unstable_set [OF Inr] by (auto simp: select_def tags_def)
qed

lemma candidates_not_nil: "candidates w releases \<noteq> Inl NilDereference"
  using scan_errors [of w releases init_state NilDereference]
  by (auto simp: candidates_def split: prod.splits flow.splits option.splits)

lemma candidates_latestUnstable:
  assumes "candidates w releases = Inr s"
  shows "latestUnstableRelease s = find (\<lambda>r. \<not> Prerelease r) releases"
proof -
  obtain f s0 where sc: "scan w releases init_state = (f, s0)"
    by (cases "scan w releases init_state")
  have "latestUnstableRelease s0 = find (\<lambda>r. \<not> Prerelease r) releases"
    using scan_latestUnstable [of w releases init_state] sc by (simp add: init_state_def)
  moreover have "latestUnstableRelease s = latestUnstableRelease s0"
    using assms sc by (cases f) (auto simp: candidates_def split: option.splits)
  ultimately show ?thesis by simp
qed

lemma select_unstableTag:
  assumes "select w releases = Inr res"
  shows "map_option TagName (find (\<lambda>r. \<not> Prerelease r) releases) = Some (unstableTag res)"
proof -
  obtain s where c: "candidates w releases = Inr s" and t: "tags s = Inr res"
    using assms by (auto simp: select_def split: sum.splits)
  from t obtain u where "latestUnstableRelease s = Some u" and "unstableTag res = TagName u"
    by (auto simp: tags_def split: option.splits)
  then show ?thesis
    using candidates_latestUnstable [OF c] by simp
qed

section \<open>The unstable candidate\<close>

text \<open>
  C1. Whatever the loop does afterwards (skip, break or return an error), the unstable
  candidate it leaves is the first release of the feed that is not a prerelease, and none
  when there is no such release; a candidate that is already set is never overwritten.
  When \<open>select\<close> succeeds, the unstable tag of the result is the tag of that release.
\<close>

theorem unstable_candidate_is_first_non_prerelease:
  "latestUnstableRelease (snd (scan w releases s)) =
     (case latestUnstableRelease s of
        Some u \<Rightarrow> Some u
      | None \<Rightarrow> find (\<lambda>r. \<not> Prerelease r) releases) \<and>
   latestUnstableRelease (snd (scan w releases init_state)) =
     find (\<lambda>r. \<not> Prerelease r) releases \<and>
   (list_all Prerelease releases \<longrightarrow>
     latestUnstableRelease (snd (scan w releases init_state)) = None) \<and>
   (\<forall>res. select w releases = Inr res \<longrightarrow>
     map_option TagName (find (\<lambda>r. \<not> Prerelease r) releases) = Some (unstableTag res))"
proof -
  have first: "latestUnstableRelease (snd (scan w releases init_state)) =
      find (\<lambda>r. \<not> Prerelease r) releases"
    using scan_latestUnstable [of w releases init_state] by (simp add: init_state_def)
  have "list_all Prerelease releases \<longrightarrow> find (\<lambda>r. \<not> Prerelease r) releases = None"
    by (simp add: find_None_iff list_all_iff)
  with first show ?thesis
    using scan_latestUnstable [of w releases s] select_unstableTag [of w releases]
    by simp
qed

theorem unstable_candidate_witness:
  "select (sample_world []) [rel_draft, rel_5d, rel_40d] =
     Inr \<lparr>unstableTag = ''v22.33.0'', stableTag = ''v22.30.0''\<rparr> \<and>
   find (\<lambda>r. \<not> Prerelease r) [rel_draft, rel_5d, rel_40d] = Some rel_5d \<and>
   latestUnstableRelease (snd (scan (sample_world []) [rel_draft, rel_5d, rel_40d] init_state)) =
     Some rel_5d \<and>
   TagName rel_5d = ''v22.33.0''"
  using unstable_candidate_is_first_non_prerelease
    [of "sample_world []" "[rel_draft, rel_5d, rel_40d]" init_state]
  by (simp add: model_defs sample_defs)

section \<open>Early termination\<close>

text \<open>
  C3. Once the loop has set the stable release it has stopped: releases appended to the
  feed change neither the state the loop leaves (the requests sent to the crash report
  service are part of it) nor the result of \<open>select\<close>.
\<close>

theorem stable_capture_terminates_scan:
  assumes "latestStableRelease (snd (scan w releases init_state)) = Some r"
  shows "fst (scan w releases init_state) = Break \<and>
         scan w (releases @ later) init_state = scan w releases init_state \<and>
         select w (releases @ later) = select w releases"
proof -
  have brk: "fst (scan w releases init_state) = Break"
    using assms scan_latestStable_Break [of init_state w releases]
    by (simp add: init_state_def)
  then have same: "scan w (releases @ later) init_state = scan w releases init_state"
    by (simp add: scan_stopped_append)
  then show ?thesis
    using brk by (simp add: select_def candidates_def)
qed

theorem stable_capture_terminates_scan_witness:
  "latestStableRelease (snd (scan (sample_world []) [rel_5d, rel_40d] init_state)) = Some rel_40d \<and>
   scan (sample_world []) ([rel_5d, rel_40d] @ [rel_41d]) init_state =
     scan (sample_world []) [rel_5d, rel_40d] init_state \<and>
   select (sample_world []) ([rel_5d, rel_40d] @ [rel_41d]) =
     Inr \<lparr>unstableTag = ''v22.33.0'', stableTag = ''v22.30.0''\<rparr> \<and>
   oracle_queries (snd (scan (sample_world []) ([rel_5d, rel_40d] @ [rel_41d]) init_state)) =
     [''22.30.0'']"
proof -
  have h: "latestStableRelease (snd (scan (sample_world []) [rel_5d, rel_40d] init_state)) =
      Some rel_40d"
    by (simp add: model_defs sample_defs)
  show ?thesis
    using h stable_capture_terminates_scan [OF h, of "[rel_41d]"]
    by (simp add: model_defs sample_defs)
qed

section \<open>A single update of the publish date\<close>

lemma iteration_single_update_eq: "iteration_single_update w r s = iteration w r s"
  by (auto simp: iteration_single_update_def iteration_def Let_def
      split: option.splits sum.splits)

lemma scan_single_update_eq: "scan_single_update w releases s = scan w releases s"
  by (induction releases arbitrary: s)
    (simp_all add: iteration_single_update_eq split: prod.splits flow.splits)

text \<open>
  C4. The loop that assigns \<open>lastReleasePublishDate\<close> once for every non-prerelease
  release it visits leaves the same state as the loop of the source, and the selector
  built on it gives the same result, for every feed, clock, parser and crash report
  service.
\<close>

theorem single_update_same_result:
  "scan_single_update w releases s = scan w releases s \<and>
   select_single_update w releases = select w releases"
proof -
  have "select_single_update w releases = select w releases"
    by (simp add: select_single_update_def select_def candidates_def scan_single_update_eq
        split: prod.splits flow.splits option.splits)
  then show ?thesis
    by (simp add: scan_single_update_eq)
qed

theorem single_update_same_result_witness:
  "select_single_update (sample_world []) [rel_29d, rel_31d, rel_41d, rel_40d] =
     select (sample_world []) [rel_29d, rel_31d, rel_41d, rel_40d] \<and>
   select (sample_world []) [rel_29d, rel_31d, rel_41d, rel_40d] =
     Inr \<lparr>unstableTag = ''v22.32.0'', stableTag = ''v22.29.0''\<rparr>"
  using single_update_same_result
    [of "sample_world []" "[rel_29d, rel_31d, rel_41d, rel_40d]" init_state]
  by (simp add: model_defs sample_defs)

section \<open>The crash report count\<close>

text \<open>
  C8. When the crash report service answers with a list of rows, \<open>errorCount\<close> returns
  the number of distinct server names in the list: a row whose server name has been seen
  adds nothing, and the empty list gives 0, not an error.
\<close>

theorem errorCount_counts_distinct_server_names:
  assumes "crash_reports w version = Some rows"
  shows "errorCount w version = Inr (int (card (ServerName ` set rows))) \<and>
         (rows = [] \<longrightarrow> errorCount w version = Inr 0) \<and>
         (\<forall>row. ServerName row \<in> ServerName ` set rows \<longrightarrow>
            count_loop Map.empty 0 (rows @ [row]) = count_loop Map.empty 0 rows)"
proof -
  have count: "errorCount w version = Inr (int (card (ServerName ` set rows)))"
    using assms by (simp add: errorCount_def count_loop_card)
  have "\<forall>row. ServerName row \<in> ServerName ` set rows \<longrightarrow>
      count_loop Map.empty 0 (rows @ [row]) = count_loop Map.empty 0 rows"
    by (simp add: count_loop_card insert_absorb)
  with count show ?thesis
    by auto
qed

theorem errorCount_counts_distinct_server_names_witness:
  "crash_reports (sample_world []) ''22.29.0'' = Some sample_rows \<and>
   length sample_rows = 3 \<and>
   errorCount (sample_world []) ''22.29.0'' = Inr 2 \<and>
   int (card (ServerName ` set sample_rows)) = 2"
proof -
  have h: "crash_reports (sample_world []) ''22.29.0'' = Some sample_rows"
    by (simp add: sample_defs)
  have "errorCount (sample_world []) ''22.29.0'' = Inr 2"
    by (simp add: model_defs sample_defs)
  then show ?thesis
    using h errorCount_counts_distinct_server_names [OF h]
    by (simp add: sample_rows_def)
qed

section \<open>No nil pointer is read\<close>

text \<open>
  C9. On a feed without a release that is not a prerelease (the empty feed included)
  \<open>select\<close> fails with \<open>NoReleasesFound\<close>. Whenever \<open>select\<close> succeeds the loop has set
  the unstable candidate, so neither \<open>select\<close> nor \<open>run\<close> ever reads \<open>.TagName\<close> through
  a nil pointer.
\<close>

theorem no_release_no_result:
  "(list_all Prerelease releases \<longrightarrow> select w releases = Inl NoReleasesFound) \<and>
   (\<forall>res. select w releases = Inr res \<longrightarrow>
      latestUnstableRelease (snd (scan w releases init_state)) \<noteq> None) \<and>
   select w releases \<noteq> Inl NilDereference \<and>
   fst (run w) \<noteq> Some NilDereference"
proof -
  have a: "list_all Prerelease releases \<longrightarrow> select w releases = Inl NoReleasesFound"
  proof
    assume "list_all Prerelease releases"
    then have "find (\<lambda>r. \<not> Prerelease r) releases = None"
      by (simp add: find_None_iff list_all_iff)
    then show "select w releases = Inl NoReleasesFound"
      by (simp add: select_def scan_candidate_needs_release)
  qed
  have b: "\<forall>res. select w releases = Inr res \<longrightarrow>
      latestUnstableRelease (snd (scan w releases init_state)) \<noteq> None"
  proof (intro allI impI)
    fix res
    assume "select w releases = Inr res"
    then have "find (\<lambda>r. \<not> Prerelease r) releases \<noteq> None"
      using select_unstableTag [of w releases res] by auto
    then show "latestUnstableRelease (snd (scan w releases init_state)) \<noteq> None"
      using scan_latestUnstable [of w releases init_state] by (simp add: init_state_def)
  qed
  have c: "fst (run w) \<noteq> Some NilDereference"
  proof (cases "github_feed w")
    case None
    then show ?thesis by (simp add: run_def)
  next
    case (Some feed)
    show ?thesis
    proof (cases "candidates w feed")
      case (Inl e)
      then show ?thesis
        using Some candidates_not_nil [of w feed] by (auto simp: run_def)
    next
      case (Inr s)
      then obtain res where "tags s = Inr res"
        using candidates_unstable_set [OF Inr] by (auto simp: tags_def)
      then show ?thesis
        using Some Inr by (simp add: run_def)
    qed
  qed
  from a b c show ?thesis
    using select_not_nil [of w releases] by simp
qed

theorem no_release_no_result_witness:
  "list_all Prerelease [rel_draft] \<and>
   select (sample_world [rel_draft]) [rel_draft] = Inl NoReleasesFound \<and>
   run (sample_world [rel_draft]) = (Some NoReleasesFound, []) \<and>
   select (sample_world [rel_40d]) [rel_40d] =
     Inr \<lparr>unstableTag = ''v22.30.0'', stableTag = ''v22.30.0''\<rparr> \<and>
   latestUnstableRelease (snd (scan (sample_world [rel_40d]) [rel_40d] init_state)) = Some rel_40d"
  using no_release_no_result [of "[rel_draft]" "sample_world [rel_draft]"]
    no_release_no_result [of "[rel_40d]" "sample_world [rel_40d]"]
  by (simp add: model_defs sample_defs)

section \<open>The fallback candidate\<close>


lemma iteration_fallback_kept:
  "fallbackRelease s = Some f \<Longrightarrow> fallbackRelease (snd (iteration w r s)) = Some f"
  by (simp add: iteration_def Let_def split: option.splits sum.splits)

lemma scan_fallback_kept:
  "fallbackRelease s = Some f \<Longrightarrow> fallbackRelease (snd (scan w releases s)) = Some f"
proof (induction releases arbitrary: s)
  case Nil
  then show ?case by simp
next
  case (Cons r rs)
  obtain fl s' where it: "iteration w r s = (fl, s')"
    by (cases "iteration w r s")
  then have "fallbackRelease s' = Some f"
    using iteration_fallback_kept [OF Cons.prems, of w r] by simp
  then show ?case
    using scan_step [OF it, of rs] Cons.IH [of s'] by simp
qed

text \<open>A pass that returns the error of \<open>errorCount\<close> has sent a request that failed,
  and the request is the last of the log.\<close>

lemma iteration_oracle_failure:
  "fst (iteration w r s) = Return OracleUnavailable \<Longrightarrow>
   oracle_queries (snd (iteration w r s)) = oracle_queries s @ [normalizedTag r] \<and>
   crash_reports w (normalizedTag r) = None"
  by (auto simp: iteration_def normalizedTag_def errorCount_def Let_def
      split: option.splits if_splits)

lemma scan_oracle_failure_logged:
  "fst (scan w releases s) = Return OracleUnavailable \<Longrightarrow>
   \<exists>q\<in>set (oracle_queries (snd (scan w releases s))). crash_reports w q = None"
proof (induction releases arbitrary: s)
  case Nil
  then show ?case by simp
next
  case (Cons r rs)
  obtain fl s' where it: "iteration w r s = (fl, s')"
    by (cases "iteration w r s")
  show ?case
  proof (cases "fl = Next")
    case True
    then have "scan w (r # rs) s = scan w rs s'"
      using it by simp
    then show ?thesis
      using Cons.prems Cons.IH [of s'] by simp
  next
    case False
    then have sc: "scan w (r # rs) s = (fl, s')"
      using scan_step [OF it, of rs] by simp
    then have "fl = Return OracleUnavailable"
      using Cons.prems by simp
    then have "oracle_queries s' = oracle_queries s @ [normalizedTag r] \<and>
        crash_reports w (normalizedTag r) = None"
      using iteration_oracle_failure [of w r s] it by simp
    then show ?thesis
      using sc by simp
  qed
qed

text \<open>A release that is not a prerelease and does not pass the filters, in a pass where
  the timestamp parses and \<open>errorCount\<close> returns no error: the loop goes on.\<close>

lemma iteration_not_passing:
  assumes "\<not> Prerelease r"
    and "parse_time w (PublishedAt r) = Some t"
    and "\<not> passes_1_6_7_8 w r"
    and "fst (iteration w r s) \<noteq> Return OracleUnavailable"
  shows "fst (iteration w r s) = Next"
    and "latestStableRelease (snd (iteration w r s)) = latestStableRelease s"
    and "lastReleasePublishDate (snd (iteration w r s)) = t"
    and "fallbackRelease (snd (iteration w r s)) =
      (if \<not> IsZero (lastReleasePublishDate s) \<and>
          Before (Add (lastReleasePublishDate s) (- 3 * 24 * Hour)) t
       then fallbackRelease s
       else if fallbackRelease s = None \<and> older_than_30_days w r then Some r
       else fallbackRelease s)"
  using assms
  by (auto simp: iteration_def passes_1_6_7_8_def normalizedTag_def errorCount_def
      older_than_30_days_def Let_def split: option.splits sum.splits if_splits)

lemma scan_not_passing:
  assumes "\<forall>r\<in>set releases. \<not> Prerelease r \<longrightarrow> parse_time w (PublishedAt r) \<noteq> None"
    and "\<forall>r\<in>set releases. \<not> passes_1_6_7_8 w r"
    and "fst (scan w releases s) \<noteq> Return OracleUnavailable"
  shows "fst (scan w releases s) = Next \<and>
         latestStableRelease (snd (scan w releases s)) = latestStableRelease s \<and>
         fallbackRelease (snd (scan w releases s)) =
           (case fallbackRelease s of
              Some f \<Rightarrow> Some f
            | None \<Rightarrow>
                find (older_than_30_days w) (past_spacing w (lastReleasePublishDate s) releases))"
  using assms
proof (induction releases arbitrary: s)
  case Nil
  then show ?case by (simp split: option.splits)
next
  case (Cons r rs)
  have ih: "fst (scan w rs s') = Next \<and>
      latestStableRelease (snd (scan w rs s')) = latestStableRelease s' \<and>
      fallbackRelease (snd (scan w rs s')) =
        (case fallbackRelease s' of
           Some f \<Rightarrow> Some f
         | None \<Rightarrow> find (older_than_30_days w) (past_spacing w (lastReleasePublishDate s') rs))"
    if "fst (scan w rs s') \<noteq> Return OracleUnavailable" for s'
    using Cons.IH [of s'] Cons.prems(1,2) that by simp
  show ?case
  proof (cases "Prerelease r")
    case True
    then have "scan w (r # rs) s = scan w rs s"
      by (simp add: iteration_Prerelease)
    then show ?thesis
      using ih [of s] Cons.prems(3) True by (simp split: option.splits)
  next
    case False
    then obtain t where t: "parse_time w (PublishedAt r) = Some t"
      using Cons.prems(1) by auto
    have np: "\<not> passes_1_6_7_8 w r"
      using Cons.prems(2) by simp
    obtain fl s' where it: "iteration w r s = (fl, s')"
      by (cases "iteration w r s")
    have "fl \<noteq> Return OracleUnavailable"
      using scan_step [OF it, of rs] Cons.prems(3) by (cases "fl = Next") auto
    then have ok: "fst (iteration w r s) \<noteq> Return OracleUnavailable"
      using it by simp
    note facts = iteration_not_passing [OF False t np ok]
    have fl: "fl = Next"
      using facts(1) it by simp
    have st: "latestStableRelease s' = latestStableRelease s"
      using facts(2) it by simp
    have dt: "lastReleasePublishDate s' = t"
      using facts(3) it by simp
    have fb: "fallbackRelease s' =
        (if \<not> IsZero (lastReleasePublishDate s) \<and>
            Before (Add (lastReleasePublishDate s) (- 3 * 24 * Hour)) t
         then fallbackRelease s
         else if fallbackRelease s = None \<and> older_than_30_days w r then Some r
         else fallbackRelease s)"
      using facts(4) it by simp
    have sc: "scan w (r # rs) s = scan w rs s'"
      using scan_step [OF it, of rs] fl by simp
    have "fst (scan w rs s') \<noteq> Return OracleUnavailable"
      using Cons.prems(3) sc by simp
    note rest = ih [OF this]
    show ?thesis
      unfolding sc
      using rest False t
      by (simp add: st dt fb split: option.splits)
  qed
qed

text \<open>
  C2, as the code has it. Take a feed in which every non-prerelease timestamp parses,
  every request that the loop sends to the crash report service is answered, and no
  release passes filters 1, 6, 7 and 8. Then the fallback candidate is the first release
  older than 30 days among the releases that reach the fallback capture (the
  non-prereleases that the spacing filter does not skip), it is never overwritten once
  set, and \<open>select\<close> returns its tag as the stable tag, or fails with \<open>NoReleasesFound\<close>
  when there is no such release.
\<close>

theorem fallback_is_first_old_release_past_spacing:
  assumes "\<forall>r\<in>set releases. \<not> Prerelease r \<longrightarrow> parse_time w (PublishedAt r) \<noteq> None"
    and "\<forall>q\<in>set (oracle_queries (snd (scan w releases init_state))). crash_reports w q \<noteq> None"
    and "\<forall>r\<in>set releases. \<not> passes_1_6_7_8 w r"
  shows "fallbackRelease (snd (scan w releases init_state)) =
           find (older_than_30_days w) (past_spacing w 0 releases) \<and>
         map_sum id stableTag (select w releases) =
           (case find (older_than_30_days w) (past_spacing w 0 releases) of
              None \<Rightarrow> Inl NoReleasesFound
            | Some f \<Rightarrow> Inr (TagName f)) \<and>
         (\<forall>s f. fallbackRelease s = Some f \<longrightarrow>
            fallbackRelease (snd (scan w releases s)) = Some f)"
proof -
  obtain fl s0 where sc: "scan w releases init_state = (fl, s0)"
    by (cases "scan w releases init_state")
  have answered: "fst (scan w releases init_state) \<noteq> Return OracleUnavailable"
    using assms(2) scan_oracle_failure_logged [of w releases init_state] by blast
  note run = scan_not_passing [OF assms(1) assms(3) answered]
  have fl: "fl = Next"
    using run sc by simp
  have st: "latestStableRelease s0 = None"
    using run sc by (simp add: init_state_def)
  have fb: "fallbackRelease s0 = find (older_than_30_days w) (past_spacing w 0 releases)"
    using run sc by (simp add: init_state_def)
  have sel: "map_sum id stableTag (select w releases) =
      (case find (older_than_30_days w) (past_spacing w 0 releases) of
         None \<Rightarrow> Inl NoReleasesFound
       | Some f \<Rightarrow> Inr (TagName f))"
  proof (cases "fallbackRelease s0")
    case None
    then have "candidates w releases = Inl NoReleasesFound"
      using sc fl st by (simp add: candidates_def)
    then show ?thesis
      using None fb by (simp add: select_def)
  next
    case (Some f)
    then have c: "candidates w releases = Inr (s0\<lparr>latestStableRelease := Some f\<rparr>)"
      using sc fl st by (simp add: candidates_def)
    then obtain u where "latestUnstableRelease s0 = Some u"
      using candidates_unstable_set [OF c] by auto
    then have "select w releases = Inr \<lparr>unstableTag = TagName u, stableTag = TagName f\<rparr>"
      using c by (simp add: select_def tags_def)
    then show ?thesis
      using Some fb by simp
  qed
  show ?thesis
    using fb sel sc scan_fallback_kept [of _ _ w releases] by simp
qed

text \<open>In the world of the witness the crash report service answers for one version
  only, the one that the loop asks about.\<close>

theorem fallback_is_first_old_release_past_spacing_witness:
  "filter (\<lambda>r. \<not> Prerelease r \<and> parse_time outage_world (PublishedAt r) = None)
     [rel_29d, rel_31d, rel_41d] = [] \<and>
   oracle_queries (snd (scan outage_world [rel_29d, rel_31d, rel_41d] init_state)) =
     [''22.29.0''] \<and>
   crash_reports outage_world ''22.29.0'' = Some sample_rows \<and>
   crash_reports outage_world (normalizedTag rel_29d) = None \<and>
   filter (passes_1_6_7_8 outage_world) [rel_29d, rel_31d, rel_41d] = [] \<and>
   past_spacing outage_world 0 [rel_29d, rel_31d, rel_41d] = [rel_29d, rel_41d] \<and>
   select outage_world [rel_29d, rel_31d, rel_41d] =
     Inr \<lparr>unstableTag = ''v22.32.0'', stableTag = ''v22.29.0''\<rparr>"
proof -
  let ?w = "outage_world"
  let ?feed = "[rel_29d, rel_31d, rel_41d]"
  have log: "oracle_queries (snd (scan ?w ?feed init_state)) = [''22.29.0'']"
    by (simp add: outage_world_def model_defs sample_defs)
  have h1: "\<forall>r\<in>set ?feed. \<not> Prerelease r \<longrightarrow> parse_time ?w (PublishedAt r) \<noteq> None"
    by (simp add: outage_world_def sample_defs)
  have h2: "\<forall>q\<in>set (oracle_queries (snd (scan ?w ?feed init_state))). crash_reports ?w q \<noteq> None"
    unfolding log by (simp add: outage_world_def sample_defs)
  have h3: "\<forall>r\<in>set ?feed. \<not> passes_1_6_7_8 ?w r"
    by (simp add: outage_world_def passes_1_6_7_8_def normalizedTag_def model_defs sample_defs)
  note stable = fallback_is_first_old_release_past_spacing
    [OF h1 h2 h3, THEN conjunct2, THEN conjunct1]
  show ?thesis
    using stable log
    by (simp add: outage_world_def passes_1_6_7_8_def normalizedTag_def model_defs sample_defs)
qed

text \<open>
  The claim as stated fails: in this feed no release passes the filters and the first
  release older than 30 days is \<open>v22.31.0\<close>, but the spacing filter skips it (it follows
  \<open>v22.32.0\<close> by two days) before the fallback capture, and \<open>select\<close> fails.
\<close>

theorem fallback_first_old_release_counterexample:
  "filter (passes_1_6_7_8 (sample_world [])) [rel_29d, rel_31d] = [] \<and>
   find (older_than_30_days (sample_world [])) [rel_29d, rel_31d] = Some rel_31d \<and>
   select (sample_world []) [rel_29d, rel_31d] = Inl NoReleasesFound"
  by (simp add: passes_1_6_7_8_def older_than_30_days_def normalizedTag_def
      model_defs sample_defs)

section \<open>Malformed timestamps\<close>

lemma scan_reaches_malformed:
  assumes "fst (scan w pre s) = Next"
    and "\<not> Prerelease r"
    and "parse_time w (PublishedAt r) = None"
  shows "fst (scan w (pre @ r # post) s) = Return MalformedTimestamp"
proof -
  obtain s' where pre: "scan w pre s = (Next, s')"
    using assms(1) by (cases "scan w pre s") simp
  obtain f s'' where it: "iteration w r s' = (f, s'')"
    by (cases "iteration w r s'")
  have "f = Return MalformedTimestamp"
    using iteration_malformed [OF assms(2,3), of s'] it by simp
  then have "scan w (r # post) s' = (Return MalformedTimestamp, s'')"
    using scan_step [OF it, of post] by simp
  then show ?thesis
    using pre by (simp add: scan_append)
qed

text \<open>
  C5, as the code has it. When the loop reaches a release that is not a prerelease and
  whose timestamp does not parse (the releases before it were processed without an error
  and without a stable release being chosen), \<open>select\<close> fails with \<open>MalformedTimestamp\<close>
  and \<open>run\<close> writes no file.
\<close>

theorem malformed_timestamp_aborts_when_reached:
  assumes "fst (scan w pre init_state) = Next"
    and "\<not> Prerelease r"
    and "parse_time w (PublishedAt r) = None"
  shows "select w (pre @ r # post) = Inl MalformedTimestamp \<and>
         (github_feed w = Some (pre @ r # post) \<longrightarrow> run w = (Some MalformedTimestamp, []))"
proof -
  have "fst (scan w (pre @ r # post) init_state) = Return MalformedTimestamp"
    using assms by (rule scan_reaches_malformed)
  then have "candidates w (pre @ r # post) = Inl MalformedTimestamp"
    by (cases "scan w (pre @ r # post) init_state") (simp add: candidates_def)
  then show ?thesis
    by (simp add: select_def run_def)
qed

theorem malformed_timestamp_aborts_when_reached_witness:
  "fst (scan (sample_world [rel_5d, rel_malformed, rel_41d]) [rel_5d] init_state) = Next \<and>
   \<not> Prerelease rel_malformed \<and>
   sample_parse (PublishedAt rel_malformed) = None \<and>
   select (sample_world [rel_5d, rel_malformed, rel_41d]) [rel_5d, rel_malformed, rel_41d] =
     Inl MalformedTimestamp \<and>
   run (sample_world [rel_5d, rel_malformed, rel_41d]) = (Some MalformedTimestamp, [])"
proof -
  let ?w = "sample_world [rel_5d, rel_malformed, rel_41d]"
  have h1: "fst (scan ?w [rel_5d] init_state) = Next"
    by (simp add: model_defs sample_defs)
  have h2: "\<not> Prerelease rel_malformed"
    by (simp add: sample_defs)
  have h3: "parse_time ?w (PublishedAt rel_malformed) = None"
    by (simp add: sample_defs)
  have feed: "github_feed ?w = Some ([rel_5d] @ rel_malformed # [rel_41d])"
    by (simp add: sample_world_def)
  show ?thesis
    using h1 h2 h3 feed malformed_timestamp_aborts_when_reached [OF h1 h2 h3, of "[rel_41d]"]
    by (simp add: sample_world_def)
qed

text \<open>
  The claim as stated fails: a prerelease is skipped before its timestamp is parsed, and
  a release after the chosen stable release is never read. Both feeds below contain a
  timestamp that does not parse, and \<open>select\<close> succeeds on both.
\<close>

theorem malformed_timestamp_counterexample:
  "sample_parse (PublishedAt rel_draft) = None \<and>
   select (sample_world []) [rel_draft, rel_40d] =
     Inr \<lparr>unstableTag = ''v22.30.0'', stableTag = ''v22.30.0''\<rparr> \<and>
   sample_parse (PublishedAt rel_malformed) = None \<and>
   select (sample_world []) [rel_40d, rel_malformed] =
     Inr \<lparr>unstableTag = ''v22.30.0'', stableTag = ''v22.30.0''\<rparr>"
  by (simp add: model_defs sample_defs)

section \<open>A single fresh release\<close>

text \<open>
  C6, as the code has it. On a feed of one release that is not a prerelease, is 5 days
  old and has \<open>Fix\<close> in its body, the freshness filter skips the release, no fallback is
  captured and no crash report is requested; the loop leaves that release as the
  unstable candidate, but \<open>select\<close> fails with \<open>NoReleasesFound\<close> and \<open>run\<close> returns
  before it writes either file.
\<close>

theorem fresh_single_release_no_result:
  assumes "\<not> Prerelease r"
    and "parse_time w (PublishedAt r) = Some t"
    and "now w - t = 5 * 24 * Hour"
    and "Contains (Body r) ''Fix''"
  shows "scan w [r] init_state =
           (Next, init_state\<lparr>latestUnstableRelease := Some r, lastReleasePublishDate := t\<rparr>) \<and>
         select w [r] = Inl NoReleasesFound \<and>
         (github_feed w = Some [r] \<longrightarrow> run w = (Some NoReleasesFound, []))"
proof -
  have age: "Since w t = 5 * 24 * Hour"
    using assms(3) by (simp add: Since_def Sub_def Hour_def minDuration_def maxDuration_def)
  have sc: "scan w [r] init_state =
      (Next, init_state\<lparr>latestUnstableRelease := Some r, lastReleasePublishDate := t\<rparr>)"
    using assms(1,2) age
    by (simp add: iteration_def init_state_def IsZero_def Hour_def)
  then have "candidates w [r] = Inl NoReleasesFound"
    by (simp add: candidates_def init_state_def)
  then show ?thesis
    using sc by (simp add: select_def run_def)
qed

theorem fresh_single_release_no_result_witness:
  "\<not> Prerelease rel_5d \<and>
   sample_parse (PublishedAt rel_5d) = Some 63833961600000000000 \<and>
   now (sample_world [rel_5d]) - 63833961600000000000 = 5 * 24 * Hour \<and>
   Contains (Body rel_5d) ''Fix'' \<and>
   latestUnstableRelease (snd (scan (sample_world [rel_5d]) [rel_5d] init_state)) = Some rel_5d \<and>
   select (sample_world [rel_5d]) [rel_5d] = Inl NoReleasesFound \<and>
   run (sample_world [rel_5d]) = (Some NoReleasesFound, [])"
proof -
  let ?w = "sample_world [rel_5d]"
  have h1: "\<not> Prerelease rel_5d"
    by (simp add: sample_defs)
  have h2: "parse_time ?w (PublishedAt rel_5d) = Some 63833961600000000000"
    by (simp add: sample_defs)
  have h3: "now ?w - 63833961600000000000 = 5 * 24 * Hour"
    by (simp add: sample_world_def Hour_def)
  have h4: "Contains (Body rel_5d) ''Fix''"
    by (simp add: sample_defs)
  have feed: "github_feed ?w = Some [rel_5d]"
    by (simp add: sample_world_def)
  show ?thesis
    using h1 h2 h3 h4 feed fresh_single_release_no_result [OF h1 h2 h3 h4]
    by (simp add: sample_world_def)
qed

text \<open>
  The claim as stated fails: on this feed \<open>run\<close> returns the error before it writes
  \<open>bin/latest.txt\<close>, and \<open>select\<close> has no result, so no unstable half is produced.
\<close>

theorem fresh_single_release_counterexample:
  "run (sample_world [rel_5d]) = (Some NoReleasesFound, []) \<and>
   map_of (snd (run (sample_world [rel_5d]))) ''bin/latest.txt'' = None \<and>
   select (sample_world [rel_5d]) [rel_5d] = Inl NoReleasesFound"
  by (simp add: model_defs sample_defs)

section \<open>The requests to the crash report service\<close>






section \<open>The spacing skip changes only the publish date\<close>

text \<open>
  C10. When the spacing filter skips a release that is not a prerelease, the pass ends
  with \<open>continue\<close> in the state left by the unstable capture with only
  \<open>lastReleasePublishDate\<close> changed, to the timestamp of the skipped release: the
  fallback, the stable release and the requests sent are as before. The release does not
  become the fallback in that pass, however old it is.
\<close>

theorem spacing_skip_only_updates_publish_date:
  assumes "\<not> Prerelease r"
    and "parse_time w (PublishedAt r) = Some t"
    and "spacing_skips w r s"
  shows "iteration w r s =
           (Next, (if latestUnstableRelease s = None
                   then s\<lparr>latestUnstableRelease := Some r\<rparr> else s)
                  \<lparr>lastReleasePublishDate := t\<rparr>) \<and>
         lastReleasePublishDate (snd (iteration w r s)) = t \<and>
         fallbackRelease (snd (iteration w r s)) = fallbackRelease s \<and>
         latestStableRelease (snd (iteration w r s)) = latestStableRelease s \<and>
         oracle_queries (snd (iteration w r s)) = oracle_queries s"
  using assms by (simp add: iteration_def spacing_skips_def Let_def)

theorem spacing_skip_only_updates_publish_date_witness:
  "\<not> Prerelease rel_31d \<and>
   sample_parse (PublishedAt rel_31d) = Some 63831715200000000000 \<and>
   spacing_skips (sample_world []) rel_31d
     (snd (iteration (sample_world []) rel_29d init_state)) \<and>
   older_than_30_days (sample_world []) rel_31d \<and>
   fallbackRelease (snd (iteration (sample_world []) rel_31d
     (snd (iteration (sample_world []) rel_29d init_state)))) = None \<and>
   lastReleasePublishDate (snd (iteration (sample_world []) rel_31d
     (snd (iteration (sample_world []) rel_29d init_state)))) = 63831715200000000000"
proof -
  let ?w = "sample_world []"
  let ?s = "snd (iteration ?w rel_29d init_state)"
  have s: "?s = init_state\<lparr>latestUnstableRelease := Some rel_29d,
      lastReleasePublishDate := 63831888000000000000\<rparr>"
    by (simp add: model_defs sample_defs)
  have h1: "\<not> Prerelease rel_31d"
    by (simp add: sample_defs)
  have h2: "parse_time ?w (PublishedAt rel_31d) = Some 63831715200000000000"
    by (simp add: sample_defs)
  have h3: "spacing_skips ?w rel_31d ?s"
    unfolding s by (simp add: spacing_skips_def model_defs sample_defs)
  have old: "older_than_30_days ?w rel_31d"
    by (simp add: older_than_30_days_def model_defs sample_defs)
  have fb: "fallbackRelease ?s = None"
    unfolding s by (simp add: init_state_def)
  note inst = spacing_skip_only_updates_publish_date [OF h1 h2 h3]
  show ?thesis
    using h1 h2 h3 old fb inst [THEN conjunct2] by (simp add: sample_world_def)
qed

end
